theory Spec2Isabelle
  imports Main
begin

section \<open>The authentication flow of \<open>App\<close> (src/app.tsx)\<close>

subsection \<open>Data\<close>

text \<open>The union type \<open>AuthFlowState\<close> (app.tsx, line 14).\<close>

datatype AuthFlowState =
    email_input
  | choose_method
  | register_with_password
  | login_with_password
  | request_otp
  | verify_otp
  | authenticated

text \<open>
  \<open>UserResponse\<close> as \<open>handleLoginSuccess\<close> uses it: \<open>userData.id\<close> is written to a
  \<open>string | null\<close> state and to local storage, \<open>userData.is_verified\<close> to a
  \<open>boolean\<close> state. The fields \<open>id\<close> and \<open>email\<close> are called \<open>id'\<close> and \<open>email'\<close>
  here: \<open>id\<close> is the identity function of HOL, and \<open>email\<close> is the parameter of
  \<open>handleEmailSubmitted\<close>.
\<close>

record UserResponse =
  id' :: string
  email' :: string
  is_verified :: bool

text \<open>
  Modelled from the spec: the module \<open>./constants\<close>, which declares
  \<open>LOCAL_STORAGE_USER_ID_KEY\<close> and \<open>LOCAL_STORAGE_USER_VERIFIED_KEY\<close>, is not among the
  sources. The specification says that the store is keyed by two entries, the user
  identifier and the verification flag, so the two constants are two different keys;
  \<open>OTHER_KEY\<close> stands for whatever else the browser's storage holds.
\<close>

datatype storage_key =
    LOCAL_STORAGE_USER_ID_KEY
  | LOCAL_STORAGE_USER_VERIFIED_KEY
  | OTHER_KEY string

text \<open>
  The six \<open>useState\<close> cells of \<open>App\<close> (lines 17 to 23) together with the browser's
  \<open>localStorage\<close>, which the handlers read and write. \<open>string | null\<close> is
  \<open>string option\<close>; \<open>getItem\<close> of a missing key is \<open>null\<close>, that is \<open>None\<close>.
\<close>

record App_state =
  currentUserId :: "string option"
  isUserVerified :: bool
  lastAnalyzedDocumentId :: "string option"
  appError :: "string option"
  currentAuthFlowState :: AuthFlowState
  tempEmail :: "string option"
  localStorage :: "storage_key \<rightharpoonup> string"

text \<open>The initial values given to \<open>useState\<close>, over a storage \<open>ls\<close> found at page load.\<close>

definition initial_state :: "(storage_key \<rightharpoonup> string) \<Rightarrow> App_state" where
  "initial_state ls =
     \<lparr> currentUserId = None, isUserVerified = False, lastAnalyzedDocumentId = None,
       appError = None, currentAuthFlowState = email_input, tempEmail = None,
       localStorage = ls \<rparr>"

text \<open>
  JavaScript truthiness of a \<open>string | null\<close>, as tested by \<open>if (storedUserId)\<close> and
  \<open>if (!tempEmail)\<close>: \<open>null\<close> and the empty string are falsy.
\<close>

fun truthy :: "string option \<Rightarrow> bool" where
  "truthy None = False"
| "truthy (Some v) = (v \<noteq> [])"

text \<open>\<open>String(b)\<close> for a boolean \<open>b\<close>.\<close>

fun String_of :: "bool \<Rightarrow> string" where
  "String_of True = ''true''"
| "String_of False = ''false''"

subsection \<open>The mount effect and the handlers\<close>

text \<open>The \<open>useEffect\<close> callback of lines 26 to 37, run once when \<open>App\<close> is mounted.\<close>

definition App_useEffect :: "App_state \<Rightarrow> App_state" where
  "App_useEffect s =
     (let storedUserId = localStorage s LOCAL_STORAGE_USER_ID_KEY;
          storedVerifiedStatus = localStorage s LOCAL_STORAGE_USER_VERIFIED_KEY
      in if truthy storedUserId
         then s\<lparr> currentUserId := storedUserId,
                 isUserVerified := (storedVerifiedStatus = Some ''true''),
                 currentAuthFlowState := authenticated \<rparr>
         else s\<lparr> currentAuthFlowState := email_input \<rparr>)"

text \<open>Loading the page: fresh component state, then the mount effect.\<close>

definition App_mount :: "(storage_key \<rightharpoonup> string) \<Rightarrow> App_state" where
  "App_mount ls = App_useEffect (initial_state ls)"

definition handleLoginSuccess :: "UserResponse \<Rightarrow> App_state \<Rightarrow> App_state" where
  "handleLoginSuccess userData s =
     s\<lparr> currentUserId := Some (id' userData),
        isUserVerified := is_verified userData,
        localStorage := (localStorage s)
          (LOCAL_STORAGE_USER_ID_KEY \<mapsto> id' userData,
           LOCAL_STORAGE_USER_VERIFIED_KEY \<mapsto> String_of (is_verified userData)),
        currentAuthFlowState := authenticated,
        appError := None \<rparr>"

definition handleLogout :: "App_state \<Rightarrow> App_state" where
  "handleLogout s =
     s\<lparr> currentUserId := None,
        isUserVerified := False,
        localStorage := (localStorage s)
          (LOCAL_STORAGE_USER_ID_KEY := None, LOCAL_STORAGE_USER_VERIFIED_KEY := None),
        lastAnalyzedDocumentId := None,
        appError := None,
        tempEmail := None,
        currentAuthFlowState := email_input \<rparr>"

definition handleDocumentAnalyzed :: "string \<Rightarrow> App_state \<Rightarrow> App_state" where
  "handleDocumentAnalyzed documentId s =
     s\<lparr> lastAnalyzedDocumentId := Some documentId, appError := None \<rparr>"

definition handleAnalysisError :: "string \<Rightarrow> App_state \<Rightarrow> App_state" where
  "handleAnalysisError error s = s\<lparr> appError := Some error \<rparr>"

definition handleEmailSubmitted :: "string \<Rightarrow> App_state \<Rightarrow> App_state" where
  "handleEmailSubmitted email s =
     s\<lparr> tempEmail := Some email, currentAuthFlowState := choose_method, appError := None \<rparr>"

definition setCurrentAuthFlowState :: "AuthFlowState \<Rightarrow> App_state \<Rightarrow> App_state" where
  "setCurrentAuthFlowState st s = s\<lparr> currentAuthFlowState := st \<rparr>"

subsection \<open>Rendering\<close>

text \<open>
  The child components are not part of the sources; what \<open>App\<close> fixes is which
  component it renders, with which \<open>email\<close> prop, and which function it binds to each
  callback prop. A call of a callback prop is an \<open>invocation\<close>; the props of an element
  map an invocation to the state change it performs, \<open>None\<close> for a prop the element does
  not have.
\<close>

datatype component =
    Sidebar
  | EmailInputCard
  | AuthMethodChooserCard
  | PasswordLoginCard
  | OtpRequestCard
  | OtpVerificationCard
  | DocumentAnalyzerCard
  | DocumentHistoryTable

datatype invocation =
    onEmailSubmitted string
  | onLoginError string
  | onChoosePassword
  | onChooseOtp
  | onBack
  | onLoginSuccess UserResponse
  | onRequestSuccess
  | onRequestError string
  | onVerificationSuccess UserResponse
  | onVerificationError string
  | onLogout
  | onDocumentAnalyzed string
  | onAnalysisError string

type_synonym callbacks = "invocation \<Rightarrow> (App_state \<Rightarrow> App_state) option"

record element =
  component_of :: component
  email_prop :: "string option"
  props :: callbacks

text \<open>The callback props of each element, in the order of the JSX (lines 78 to 131).\<close>

fun EmailInputCard_props :: callbacks where
  "EmailInputCard_props (onEmailSubmitted e) = Some (handleEmailSubmitted e)"
| "EmailInputCard_props (onLoginError m) = Some (handleAnalysisError m)"
| "EmailInputCard_props _ = None"

fun AuthMethodChooserCard_props :: callbacks where
  "AuthMethodChooserCard_props onChoosePassword =
     Some (setCurrentAuthFlowState login_with_password)"
| "AuthMethodChooserCard_props onChooseOtp = Some (setCurrentAuthFlowState request_otp)"
| "AuthMethodChooserCard_props onBack = Some (setCurrentAuthFlowState email_input)"
| "AuthMethodChooserCard_props (onLoginSuccess u) = Some (handleLoginSuccess u)"
| "AuthMethodChooserCard_props (onLoginError m) = Some (handleAnalysisError m)"
| "AuthMethodChooserCard_props _ = None"

fun PasswordLoginCard_props :: callbacks where
  "PasswordLoginCard_props (onLoginSuccess u) = Some (handleLoginSuccess u)"
| "PasswordLoginCard_props (onLoginError m) = Some (handleAnalysisError m)"
| "PasswordLoginCard_props onBack = Some (setCurrentAuthFlowState choose_method)"
| "PasswordLoginCard_props _ = None"

fun OtpRequestCard_props :: callbacks where
  "OtpRequestCard_props onRequestSuccess = Some (setCurrentAuthFlowState verify_otp)"
| "OtpRequestCard_props (onRequestError m) = Some (handleAnalysisError m)"
| "OtpRequestCard_props onBack = Some (setCurrentAuthFlowState choose_method)"
| "OtpRequestCard_props _ = None"

fun OtpVerificationCard_props :: callbacks where
  "OtpVerificationCard_props (onVerificationSuccess u) = Some (handleLoginSuccess u)"
| "OtpVerificationCard_props (onVerificationError m) = Some (handleAnalysisError m)"
| "OtpVerificationCard_props onBack = Some (setCurrentAuthFlowState request_otp)"
| "OtpVerificationCard_props _ = None"

fun Sidebar_props :: callbacks where
  "Sidebar_props onLogout = Some handleLogout"
| "Sidebar_props _ = None"

fun DocumentAnalyzerCard_props :: callbacks where
  "DocumentAnalyzerCard_props (onDocumentAnalyzed d) = Some (handleDocumentAnalyzed d)"
| "DocumentAnalyzerCard_props (onAnalysisError m) = Some (handleAnalysisError m)"
| "DocumentAnalyzerCard_props _ = None"

fun no_props :: callbacks where
  "no_props _ = None"

text \<open>
  \<open>renderAuthFlow\<close> (lines 75 to 136): the element it returns, \<open>None\<close> for \<open>null\<close>, and the
  state after the \<open>setCurrentAuthFlowState\<close> it may call while rendering.
\<close>

definition renderAuthFlow :: "App_state \<Rightarrow> App_state \<times> element option" where
  "renderAuthFlow s =
     (case currentAuthFlowState s of
        email_input \<Rightarrow>
          (s, Some \<lparr> component_of = EmailInputCard, email_prop = None,
                     props = EmailInputCard_props \<rparr>)
      | choose_method \<Rightarrow>
          if \<not> truthy (tempEmail s) then (setCurrentAuthFlowState email_input s, None)
          else (s, Some \<lparr> component_of = AuthMethodChooserCard, email_prop = tempEmail s,
                          props = AuthMethodChooserCard_props \<rparr>)
      | login_with_password \<Rightarrow>
          if \<not> truthy (tempEmail s) then (setCurrentAuthFlowState email_input s, None)
          else (s, Some \<lparr> component_of = PasswordLoginCard, email_prop = tempEmail s,
                          props = PasswordLoginCard_props \<rparr>)
      | request_otp \<Rightarrow>
          if \<not> truthy (tempEmail s) then (setCurrentAuthFlowState email_input s, None)
          else (s, Some \<lparr> component_of = OtpRequestCard, email_prop = tempEmail s,
                          props = OtpRequestCard_props \<rparr>)
      | verify_otp \<Rightarrow>
          if \<not> truthy (tempEmail s) then (setCurrentAuthFlowState email_input s, None)
          else (s, Some \<lparr> component_of = OtpVerificationCard, email_prop = tempEmail s,
                          props = OtpVerificationCard_props \<rparr>)
      | _ \<Rightarrow> (s, None))"

text \<open>
  The JSX returned by \<open>App\<close> (lines 138 to 169): the sidebar always, then either the
  authentication flow or the two document components.
\<close>

fun option_list :: "'a option \<Rightarrow> 'a list" where
  "option_list None = []"
| "option_list (Some x) = [x]"

definition App_render :: "App_state \<Rightarrow> App_state \<times> element list" where
  "App_render s =
     (let sidebar = \<lparr> component_of = Sidebar, email_prop = None, props = Sidebar_props \<rparr>
      in if currentAuthFlowState s \<noteq> authenticated
         then (case renderAuthFlow s of (s', el) \<Rightarrow> (s', sidebar # option_list el))
         else (s, [sidebar,
                   \<lparr> component_of = DocumentAnalyzerCard, email_prop = None,
                     props = DocumentAnalyzerCard_props \<rparr>,
                   \<lparr> component_of = DocumentHistoryTable, email_prop = None,
                     props = no_props \<rparr>]))"

text \<open>
  A state update made while rendering makes React render the component again with the
  new state and drop the first output; what is shown is the output of the first pass
  that updates nothing.
\<close>

function commit :: "App_state \<Rightarrow> App_state \<times> element list" where
  "commit s =
     (case App_render s of
        (s', els) \<Rightarrow>
          if currentAuthFlowState s' = currentAuthFlowState s then (s', els)
          else commit s')"
  by pat_completeness auto

text \<open>
  The states in which \<open>renderAuthFlow\<close> takes one of its four fallback branches
  (lines 80, 95, 108 and 121).
\<close>

definition guard_fails :: "App_state \<Rightarrow> bool" where
  "guard_fails s \<longleftrightarrow>
     currentAuthFlowState s \<in> {choose_method, login_with_password, request_otp, verify_otp}
     \<and> \<not> truthy (tempEmail s)"

subsection \<open>Delivering callbacks\<close>

text \<open>
  The function bound to a callback prop by the first element of a rendered output that
  has the prop. No two elements rendered together share a prop name.
\<close>

fun find_callback :: "element list \<Rightarrow> callbacks" where
  "find_callback [] call = None"
| "find_callback (el # els) call =
     (case props el call of Some h \<Rightarrow> Some h | None \<Rightarrow> find_callback els call)"

text \<open>
  Calling a callback prop taken from the output \<open>els\<close> when the state is \<open>s\<close>. The bound
  functions only call state setters and write to the storage, none reads the state of
  the render that created it, so the call acts on the state current when it arrives.
  A prop that no element of \<open>els\<close> has changes nothing.
\<close>

definition invoke :: "element list \<Rightarrow> invocation \<Rightarrow> App_state \<Rightarrow> App_state" where
  "invoke els call s = (case find_callback els call of Some h \<Rightarrow> h s | None \<Rightarrow> s)"

text \<open>
  One event of the running application: the state is rendered and shown, then a
  callback prop of the output shown is called.
\<close>

definition dispatch :: "invocation \<Rightarrow> App_state \<Rightarrow> App_state" where
  "dispatch call s = (case commit s of (s', els) \<Rightarrow> invoke els call s')"

text \<open>
  Every state the application passes through while a list of events is delivered: the
  state left by a handler, the state shown for it, and so on after the next event.
\<close>

fun trace :: "App_state \<Rightarrow> invocation list \<Rightarrow> App_state list" where
  "trace s [] = [s, fst (commit s)]"
| "trace s (call # calls) = s # fst (commit s) # trace (dispatch call s) calls"

subsection \<open>Example states\<close>

definition example_user :: UserResponse where
  "example_user = \<lparr> id' = ''u-17'', email' = ''a@b.com'', is_verified = True \<rparr>"

definition unnamed_user :: UserResponse where
  "unnamed_user = \<lparr> id' = [], email' = ''a@b.com'', is_verified = True \<rparr>"

text \<open>A first visit, the email submitted, the password form chosen.\<close>

definition password_step :: App_state where
  "password_step =
     dispatch onChoosePassword (dispatch (onEmailSubmitted ''a@b.com'') (App_mount Map.empty))"

text \<open>The passcode form after a request for a passcode has failed.\<close>

definition otp_request_failed :: App_state where
  "otp_request_failed =
     dispatch (onRequestError ''mail service down'')
       (dispatch onChooseOtp (dispatch (onEmailSubmitted ''a@b.com'') (App_mount Map.empty)))"

text \<open>A storage whose identifier entry is the empty string.\<close>

definition empty_id_store :: "storage_key \<rightharpoonup> string" where
  "empty_id_store =
     [LOCAL_STORAGE_USER_ID_KEY \<mapsto> [], LOCAL_STORAGE_USER_VERIFIED_KEY \<mapsto> ''true'']"

section \<open>Properties\<close>

subsection \<open>Rendering ends\<close>

lemma renderAuthFlow_state:
  "fst (renderAuthFlow s) = s \<or>
   fst (renderAuthFlow s) = s\<lparr>currentAuthFlowState := email_input\<rparr>"
  by (simp add: renderAuthFlow_def setCurrentAuthFlowState_def split: AuthFlowState.split)

lemma App_render_state:
  "fst (App_render s) = s \<or> fst (App_render s) = s\<lparr>currentAuthFlowState := email_input\<rparr>"
  using renderAuthFlow_state [of s]
  by (auto simp: App_render_def Let_def split: prod.split)

lemma App_render_email_input:
  "currentAuthFlowState s = email_input \<Longrightarrow> fst (App_render s) = s"
  by (simp add: App_render_def renderAuthFlow_def)

text \<open>
  A pass that updates the state leaves it at \<open>email_input\<close>, where the next pass updates
  nothing: rendering is repeated at most once.
\<close>

termination commit
proof (relation "measure (\<lambda>s. if currentAuthFlowState (fst (App_render s)) =
                                  currentAuthFlowState s then 0 else 1)")
  show "wf (measure (\<lambda>s. if currentAuthFlowState (fst (App_render s)) =
                            currentAuthFlowState s then 0 else 1))"
    by simp
next
  fix s s' :: App_state and els
  assume r: "(s', els) = App_render s"
    and ne: "currentAuthFlowState s' \<noteq> currentAuthFlowState s"
  from r have f: "fst (App_render s) = s'" by (metis fst_conv)
  with App_render_state [of s] ne have "s' = s\<lparr>currentAuthFlowState := email_input\<rparr>"
    by auto
  then have "currentAuthFlowState s' = email_input" by simp
  then have "fst (App_render s') = s'" by (rule App_render_email_input)
  with f ne show "(s', s) \<in> measure (\<lambda>s. if currentAuthFlowState (fst (App_render s)) =
                                          currentAuthFlowState s then 0 else 1)"
    by simp
qed

declare commit.simps [simp del]

lemma App_render_guard_fails:
  "guard_fails s \<Longrightarrow> fst (App_render s) = s\<lparr>currentAuthFlowState := email_input\<rparr>"
  by (auto simp: guard_fails_def App_render_def renderAuthFlow_def setCurrentAuthFlowState_def)

lemma App_render_guard_holds:
  "\<not> guard_fails s \<Longrightarrow> fst (App_render s) = s"
  by (cases "currentAuthFlowState s")
     (auto simp: guard_fails_def App_render_def renderAuthFlow_def)

lemma commit_stable:
  assumes "fst (App_render s) = s"
  shows "commit s = App_render s"
proof -
  from assms obtain els where "App_render s = (s, els)"
    by (cases "App_render s") simp
  then show ?thesis by (simp add: commit.simps [of s])
qed

lemma commit_again:
  assumes "App_render s = (s', els)" "currentAuthFlowState s' \<noteq> currentAuthFlowState s"
  shows "commit s = commit s'"
  using assms by (simp add: commit.simps [of s])

lemma commit_eq:
  "commit s =
     (if guard_fails s then App_render (s\<lparr>currentAuthFlowState := email_input\<rparr>)
      else App_render s)"
proof (cases "guard_fails s")
  case True
  let ?s' = "s\<lparr>currentAuthFlowState := email_input\<rparr>"
  from True have "fst (App_render s) = ?s'" by (rule App_render_guard_fails)
  then obtain els where r: "App_render s = (?s', els)"
    by (cases "App_render s") simp
  from True have ne: "currentAuthFlowState ?s' \<noteq> currentAuthFlowState s"
    by (auto simp: guard_fails_def)
  have "fst (App_render ?s') = ?s'" by (rule App_render_email_input) simp
  then have "commit ?s' = App_render ?s'" by (rule commit_stable)
  moreover from r ne have "commit s = commit ?s'" by (rule commit_again)
  ultimately show ?thesis using True by simp
next
  case False
  then have "fst (App_render s) = s" by (rule App_render_guard_holds)
  then have "commit s = App_render s" by (rule commit_stable)
  with False show ?thesis by simp
qed

lemma dispatch_eq: "dispatch call s = invoke (snd (commit s)) call (fst (commit s))"
  by (simp add: dispatch_def split: prod.split)

lemmas handler_defs =
  handleLoginSuccess_def handleLogout_def handleDocumentAnalyzed_def
  handleAnalysisError_def handleEmailSubmitted_def setCurrentAuthFlowState_def

lemmas render_defs =
  commit_eq guard_fails_def App_render_def renderAuthFlow_def Let_def

lemmas run_defs =
  dispatch_def invoke_def render_defs handler_defs
  App_mount_def App_useEffect_def initial_state_def

lemma password_step_eq:
  "password_step =
     \<lparr> currentUserId = None, isUserVerified = False, lastAnalyzedDocumentId = None,
       appError = None, currentAuthFlowState = login_with_password,
       tempEmail = Some ''a@b.com'', localStorage = Map.empty \<rparr>"
  by (simp add: password_step_def run_defs)

lemma otp_request_failed_eq:
  "otp_request_failed =
     \<lparr> currentUserId = None, isUserVerified = False, lastAnalyzedDocumentId = None,
       appError = Some ''mail service down'', currentAuthFlowState = request_otp,
       tempEmail = Some ''a@b.com'', localStorage = Map.empty \<rparr>"
  by (simp add: otp_request_failed_def run_defs)

subsection \<open>Initialisation\<close>






subsection \<open>The two storage entries\<close>

text \<open>
  Claim C8 says that every identity saved by \<open>handleLoginSuccess\<close> is found again by
  the next page load. For an identity whose \<open>id\<close> is the empty string the entries are
  written, but the mount effect takes the stored identifier for missing: the page loads
  with no current user and unverified.
\<close>

theorem roundtrip_empty_identifier_counterexample:
  "currentUserId
     (App_mount (localStorage (handleLoginSuccess unnamed_user (initial_state Map.empty))))
     \<noteq> Some (id' unnamed_user) \<and>
   isUserVerified
     (App_mount (localStorage (handleLoginSuccess unnamed_user (initial_state Map.empty))))
     \<noteq> is_verified unnamed_user"
  by (simp add: unnamed_user_def handleLoginSuccess_def App_mount_def App_useEffect_def Let_def
        initial_state_def)

text \<open>
  Claim C8, amended: \<open>handleLoginSuccess\<close> stores the verification flag as the string
  \<open>true\<close> or \<open>false\<close> and the identifier as it is; for every identity with a non-empty
  \<open>id\<close>, the next page load has that \<open>id\<close> as current user and the saved \<open>is_verified\<close> as
  verification status; if the identifier entry is missing, or is the empty string, the
  page loads with no current user and unverified, whatever the flag entry holds.
\<close>

theorem session_store_roundtrip:
  "localStorage (handleLoginSuccess u s) LOCAL_STORAGE_USER_VERIFIED_KEY
     = Some (if is_verified u then ''true'' else ''false'') \<and>
   localStorage (handleLoginSuccess u s) LOCAL_STORAGE_USER_ID_KEY = Some (id' u) \<and>
   (id' u \<noteq> [] \<longrightarrow>
      currentUserId (App_mount (localStorage (handleLoginSuccess u s))) = Some (id' u) \<and>
      isUserVerified (App_mount (localStorage (handleLoginSuccess u s))) = is_verified u) \<and>
   (ls LOCAL_STORAGE_USER_ID_KEY = None \<or> ls LOCAL_STORAGE_USER_ID_KEY = Some [] \<longrightarrow>
      currentUserId (App_mount ls) = None \<and> isUserVerified (App_mount ls) = False)"
  by (cases "is_verified u")
     (auto simp: handleLoginSuccess_def App_mount_def App_useEffect_def initial_state_def Let_def)

theorem session_store_roundtrip_witness:
  "id' example_user \<noteq> [] \<and>
   localStorage (handleLoginSuccess example_user password_step) LOCAL_STORAGE_USER_VERIFIED_KEY
     = Some ''true'' \<and>
   currentUserId (App_mount (localStorage (handleLoginSuccess example_user password_step)))
     = Some ''u-17'' \<and>
   isUserVerified (App_mount (localStorage (handleLoginSuccess example_user password_step)))
     = True \<and>
   [LOCAL_STORAGE_USER_VERIFIED_KEY \<mapsto> ''true''] LOCAL_STORAGE_USER_ID_KEY = None \<and>
   isUserVerified (App_mount [LOCAL_STORAGE_USER_VERIFIED_KEY \<mapsto> ''true'']) = False"
  using session_store_roundtrip [of example_user password_step
          "[LOCAL_STORAGE_USER_VERIFIED_KEY \<mapsto> ''true'']"]
  by (simp add: example_user_def)

text \<open>
  Claim C10 says that with the identifier entry present the loaded verification status
  is true exactly when the flag entry is the string \<open>true\<close>. With the identifier entry
  present but empty, the flag entry \<open>true\<close> still loads as unverified.
\<close>

theorem verified_flag_empty_identifier_counterexample:
  "empty_id_store LOCAL_STORAGE_USER_ID_KEY \<noteq> None \<and>
   empty_id_store LOCAL_STORAGE_USER_VERIFIED_KEY = Some ''true'' \<and>
   \<not> isUserVerified (App_mount empty_id_store)"
  by (simp add: empty_id_store_def App_mount_def App_useEffect_def initial_state_def Let_def)

text \<open>
  Claim C10, amended: when the identifier entry is a non-empty string, the verification
  status after a page load is true exactly when the flag entry is exactly the string
  \<open>true\<close>; and in every case a flag entry that is missing or differs from \<open>true\<close>
  loads as unverified.
\<close>

theorem strict_verified_flag:
  "(ls LOCAL_STORAGE_USER_ID_KEY = Some uid \<and> uid \<noteq> [] \<longrightarrow>
      isUserVerified (App_mount ls)
        = (ls LOCAL_STORAGE_USER_VERIFIED_KEY = Some ''true'')) \<and>
   (ls LOCAL_STORAGE_USER_VERIFIED_KEY \<noteq> Some ''true'' \<longrightarrow> \<not> isUserVerified (App_mount ls))"
  by (auto simp: App_mount_def App_useEffect_def initial_state_def Let_def)

theorem strict_verified_flag_witness:
  "[LOCAL_STORAGE_USER_ID_KEY \<mapsto> ''u-17'', LOCAL_STORAGE_USER_VERIFIED_KEY \<mapsto> ''true'']
     LOCAL_STORAGE_USER_ID_KEY = Some ''u-17'' \<and> ''u-17'' \<noteq> [] \<and>
   isUserVerified (App_mount [LOCAL_STORAGE_USER_ID_KEY \<mapsto> ''u-17'',
      LOCAL_STORAGE_USER_VERIFIED_KEY \<mapsto> ''true'']) \<and>
   \<not> isUserVerified (App_mount [LOCAL_STORAGE_USER_ID_KEY \<mapsto> ''u-17'',
      LOCAL_STORAGE_USER_VERIFIED_KEY \<mapsto> ''TRUE'']) \<and>
   \<not> isUserVerified (App_mount [LOCAL_STORAGE_USER_ID_KEY \<mapsto> ''u-17'',
      LOCAL_STORAGE_USER_VERIFIED_KEY \<mapsto> ''false'']) \<and>
   \<not> isUserVerified (App_mount [LOCAL_STORAGE_USER_ID_KEY \<mapsto> ''u-17''])"
  using strict_verified_flag [of "[LOCAL_STORAGE_USER_ID_KEY \<mapsto> ''u-17'',
          LOCAL_STORAGE_USER_VERIFIED_KEY \<mapsto> ''true'']" "''u-17''"]
        strict_verified_flag [of "[LOCAL_STORAGE_USER_ID_KEY \<mapsto> ''u-17'',
          LOCAL_STORAGE_USER_VERIFIED_KEY \<mapsto> ''TRUE'']" "''u-17''"]
        strict_verified_flag [of "[LOCAL_STORAGE_USER_ID_KEY \<mapsto> ''u-17'',
          LOCAL_STORAGE_USER_VERIFIED_KEY \<mapsto> ''false'']" "''u-17''"]
        strict_verified_flag [of "[LOCAL_STORAGE_USER_ID_KEY \<mapsto> ''u-17'']" "''u-17''"]
  by simp

subsection \<open>Logout\<close>

text \<open>
  Claim C4: the sidebar is rendered in every state with \<open>onLogout\<close> bound to
  \<open>handleLogout\<close>, so from any state, \<open>authenticated\<close> with an identity, a carried email,
  an error and an analysed document among them, logging out leaves the flow at
  \<open>email_input\<close> with no identity, no carried email, no error, no analysed document, and
  both storage entries removed.
\<close>

theorem logout_clears_everything:
  "currentAuthFlowState (dispatch onLogout s) = email_input \<and>
   currentUserId (dispatch onLogout s) = None \<and>
   isUserVerified (dispatch onLogout s) = False \<and>
   tempEmail (dispatch onLogout s) = None \<and>
   appError (dispatch onLogout s) = None \<and>
   lastAnalyzedDocumentId (dispatch onLogout s) = None \<and>
   localStorage (dispatch onLogout s) LOCAL_STORAGE_USER_ID_KEY = None \<and>
   localStorage (dispatch onLogout s) LOCAL_STORAGE_USER_VERIFIED_KEY = None"
proof -
  have "find_callback (snd (commit s)) onLogout = Some handleLogout"
    by (cases "currentAuthFlowState s") (simp_all add: render_defs setCurrentAuthFlowState_def)
  then have "dispatch onLogout s = handleLogout (fst (commit s))"
    by (simp add: dispatch_eq invoke_def)
  then show ?thesis by (simp add: handleLogout_def)
qed

subsection \<open>The fallback of \<open>renderAuthFlow\<close>\<close>

text \<open>
  Claim C5: in each of the states \<open>choose_method\<close>, \<open>login_with_password\<close>, \<open>request_otp\<close>
  and \<open>verify_otp\<close>, rendering with no carried email returns \<open>null\<close> and sets the flow
  state to \<open>email_input\<close>, changing nothing else; the repeated rendering ends, showing
  the sidebar and the email form, and the error is the one there was before.
\<close>

theorem guard_recovery:
  assumes "currentAuthFlowState s \<in> {choose_method, login_with_password, request_otp, verify_otp}"
    and "tempEmail s = None"
  shows "renderAuthFlow s = (s\<lparr>currentAuthFlowState := email_input\<rparr>, None) \<and>
         fst (commit s) = s\<lparr>currentAuthFlowState := email_input\<rparr> \<and>
         map component_of (snd (commit s)) = [Sidebar, EmailInputCard] \<and>
         currentAuthFlowState (fst (commit s)) = email_input \<and>
         appError (fst (commit s)) = appError s"
  using assms by (auto simp: render_defs setCurrentAuthFlowState_def)

theorem guard_recovery_witness:
  "currentAuthFlowState (password_step\<lparr>tempEmail := None, appError := Some ''bad password''\<rparr>)
     \<in> {choose_method, login_with_password, request_otp, verify_otp} \<and>
   tempEmail (password_step\<lparr>tempEmail := None, appError := Some ''bad password''\<rparr>) = None \<and>
   currentAuthFlowState
     (fst (commit (password_step\<lparr>tempEmail := None, appError := Some ''bad password''\<rparr>)))
     = email_input \<and>
   appError (fst (commit (password_step\<lparr>tempEmail := None, appError := Some ''bad password''\<rparr>)))
     = Some ''bad password'' \<and>
   map component_of
     (snd (commit (password_step\<lparr>tempEmail := None, appError := Some ''bad password''\<rparr>)))
     = [Sidebar, EmailInputCard]"
  using guard_recovery [of "password_step\<lparr>tempEmail := None, appError := Some ''bad password''\<rparr>"]
  by (simp add: password_step_eq)

subsection \<open>Failures\<close>

text \<open>
  Claim C7: when the password form, the passcode request form or the passcode
  verification form is shown and reports a failure with message \<open>msg\<close>
  (\<open>onLoginError\<close>, \<open>onRequestError\<close>, \<open>onVerificationError\<close>), the flow state and the
  carried email are unchanged and the error is exactly \<open>msg\<close>; nothing else changes
  either.
\<close>

theorem failure_keeps_step:
  assumes "(currentAuthFlowState s, call) \<in>
             {(login_with_password, onLoginError msg),
              (request_otp, onRequestError msg),
              (verify_otp, onVerificationError msg)}"
    and "truthy (tempEmail s)"
  shows "currentAuthFlowState (dispatch call s) = currentAuthFlowState s \<and>
         tempEmail (dispatch call s) = tempEmail s \<and>
         appError (dispatch call s) = Some msg \<and>
         dispatch call s = s\<lparr>appError := Some msg\<rparr>"
  using assms by (auto simp: dispatch_def invoke_def render_defs handleAnalysisError_def)

theorem failure_keeps_step_witness:
  "(currentAuthFlowState password_step, onLoginError ''bad password'') \<in>
      {(login_with_password, onLoginError ''bad password''),
       (request_otp, onRequestError ''bad password''),
       (verify_otp, onVerificationError ''bad password'')} \<and>
   truthy (tempEmail password_step) \<and>
   currentAuthFlowState (dispatch (onLoginError ''bad password'') password_step)
     = login_with_password \<and>
   tempEmail (dispatch (onLoginError ''bad password'') password_step) = Some ''a@b.com'' \<and>
   appError (dispatch (onLoginError ''bad password'') password_step) = Some ''bad password''"
  using failure_keeps_step [of password_step "onLoginError ''bad password''" "''bad password''"]
  by (simp add: password_step_eq)

subsection \<open>Successes\<close>

text \<open>
  Claim C2 says that every success event clears the error, \<open>onRequestSuccess\<close> in the
  state \<open>request_otp\<close> in particular. \<open>onRequestSuccess\<close> is bound to
  \<open>() => setCurrentAuthFlowState('verify_otp')\<close>, which leaves \<open>appError\<close> alone: after a
  failed request for a passcode and a successful second request, the flow is at
  \<open>verify_otp\<close> and the message of the failure is still set.
\<close>

theorem request_success_keeps_error:
  "currentAuthFlowState otp_request_failed = request_otp \<and>
   appError otp_request_failed = Some ''mail service down'' \<and>
   currentAuthFlowState (dispatch onRequestSuccess otp_request_failed) = verify_otp \<and>
   appError (dispatch onRequestSuccess otp_request_failed) = Some ''mail service down''"
  by (simp add: otp_request_failed_eq run_defs)

text \<open>
  The other success events do clear the error: their handlers, \<open>handleEmailSubmitted\<close>
  and \<open>handleLoginSuccess\<close>, end with \<open>setAppError(null)\<close>.
\<close>

lemma other_successes_clear_error:
  assumes "(currentAuthFlowState s, call) \<in>
             {(email_input, onEmailSubmitted e),
              (choose_method, onLoginSuccess u),
              (login_with_password, onLoginSuccess u),
              (verify_otp, onVerificationSuccess u)}"
    and "currentAuthFlowState s = email_input \<or> truthy (tempEmail s)"
  shows "appError (dispatch call s) = None"
  using assms by (auto simp: dispatch_def invoke_def render_defs handler_defs)

subsection \<open>Callbacks that arrive late\<close>

text \<open>
  Claim C1 says that a success or failure callback of an abandoned attempt leaves the
  state unchanged. The password form is shown, a login request is under way, and
  \<open>onBack\<close> moves the flow to \<open>choose_method\<close>; when the request then succeeds, the
  \<open>onLoginSuccess\<close> given to the form is \<open>handleLoginSuccess\<close>, which tests nothing and
  sets the flow state to \<open>authenticated\<close>.
\<close>

theorem stale_success_counterexample:
  "currentAuthFlowState password_step = login_with_password \<and>
   currentAuthFlowState (dispatch onBack password_step) = choose_method \<and>
   currentAuthFlowState
     (invoke (snd (commit password_step)) (onLoginSuccess example_user)
        (dispatch onBack password_step)) = authenticated \<and>
   invoke (snd (commit password_step)) (onLoginSuccess example_user)
     (dispatch onBack password_step) \<noteq> dispatch onBack password_step"
proof -
  have a: "dispatch onBack password_step = password_step\<lparr>currentAuthFlowState := choose_method\<rparr>"
    by (simp add: password_step_eq run_defs)
  have b: "invoke (snd (commit password_step)) (onLoginSuccess example_user) s
             = handleLoginSuccess example_user s" for s
    by (simp add: password_step_eq invoke_def render_defs)
  have c: "currentAuthFlowState (handleLoginSuccess example_user s) = authenticated" for s
    by (simp add: handleLoginSuccess_def)
  have d: "currentAuthFlowState (dispatch onBack password_step) = choose_method"
    by (simp add: a)
  have "handleLoginSuccess example_user (dispatch onBack password_step)
          \<noteq> dispatch onBack password_step"
  proof
    assume "handleLoginSuccess example_user (dispatch onBack password_step)
              = dispatch onBack password_step"
    then have "currentAuthFlowState (handleLoginSuccess example_user (dispatch onBack password_step))
                 = currentAuthFlowState (dispatch onBack password_step)"
      by simp
    with c d show False by simp
  qed
  with b c d show ?thesis by (simp add: password_step_eq)
qed

lemma find_callback_commit_cases:
  assumes "find_callback (snd (commit s0)) call = Some h"
  shows "(\<exists>e. call = onEmailSubmitted e \<and> h = handleEmailSubmitted e) \<or>
         (\<exists>m. call \<in> {onLoginError m, onRequestError m, onVerificationError m, onAnalysisError m}
               \<and> h = handleAnalysisError m) \<or>
         (\<exists>u. call \<in> {onLoginSuccess u, onVerificationSuccess u} \<and> h = handleLoginSuccess u) \<or>
         (\<exists>d. call = onDocumentAnalyzed d \<and> h = handleDocumentAnalyzed d) \<or>
         (call = onLogout \<and> h = handleLogout) \<or>
         (\<exists>st. call \<in> {onChoosePassword, onChooseOtp, onBack, onRequestSuccess}
               \<and> h = setCurrentAuthFlowState st)"
  using assms
  by (cases "currentAuthFlowState s0"; cases call)
     (auto simp: render_defs split: if_splits)

text \<open>
  Claim C1, amended: a callback handed out when an earlier state \<open>s0\<close> was shown acts on
  whatever state \<open>s\<close> is current when it is called. A late \<open>onLoginSuccess\<close> or
  \<open>onVerificationSuccess\<close> authenticates: the flow state becomes \<open>authenticated\<close>, the
  identity is set and stored and the error cleared, the carried email staying as it is.
  A late \<open>onLoginError\<close>, \<open>onRequestError\<close> or \<open>onVerificationError\<close> with message \<open>m\<close> sets
  the error to \<open>m\<close> and changes nothing else, the flow state, the carried email and the
  identity included.
\<close>

theorem stale_callback_effect:
  assumes "find_callback (snd (commit s0)) call = Some h"
  shows "(call = onLoginSuccess u \<or> call = onVerificationSuccess u \<longrightarrow>
            currentAuthFlowState (h s) = authenticated \<and>
            currentUserId (h s) = Some (id' u) \<and>
            isUserVerified (h s) = is_verified u \<and>
            localStorage (h s) LOCAL_STORAGE_USER_ID_KEY = Some (id' u) \<and>
            appError (h s) = None \<and>
            tempEmail (h s) = tempEmail s) \<and>
         (call = onLoginError m \<or> call = onRequestError m \<or> call = onVerificationError m \<longrightarrow>
            h s = s\<lparr>appError := Some m\<rparr>)"
  using find_callback_commit_cases [OF assms]
  by (auto simp: handler_defs)

theorem stale_callback_effect_witness:
  "find_callback (snd (commit password_step)) (onLoginSuccess example_user)
     = Some (handleLoginSuccess example_user) \<and>
   currentAuthFlowState (handleLoginSuccess example_user (dispatch onBack password_step))
     = authenticated \<and>
   currentUserId (handleLoginSuccess example_user (dispatch onBack password_step))
     = Some ''u-17'' \<and>
   find_callback (snd (commit password_step)) (onLoginError ''timeout'')
     = Some (handleAnalysisError ''timeout'') \<and>
   handleAnalysisError ''timeout'' (dispatch onBack password_step)
     = (dispatch onBack password_step)\<lparr>appError := Some ''timeout''\<rparr>"
proof -
  have a: "find_callback (snd (commit password_step)) (onLoginSuccess example_user)
             = Some (handleLoginSuccess example_user)"
    by (simp add: password_step_eq render_defs)
  have b: "find_callback (snd (commit password_step)) (onLoginError ''timeout'')
             = Some (handleAnalysisError ''timeout'')"
    by (simp add: password_step_eq render_defs)
  show ?thesis
    using a b
      stale_callback_effect [OF a, where u = example_user and m = "[]"
        and s = "dispatch onBack password_step"]
      stale_callback_effect [OF b, where u = example_user and m = "''timeout''"
        and s = "dispatch onBack password_step"]
    by (simp add: example_user_def)
qed

subsection \<open>The empty email\<close>

lemma rendered_email_truthy:
  assumes "el \<in> set (snd (App_render s))"
    and "component_of el \<in> {AuthMethodChooserCard, PasswordLoginCard, OtpRequestCard, OtpVerificationCard}"
  shows "truthy (email_prop el)"
  using assms
  by (cases "currentAuthFlowState s") (auto simp: App_render_def renderAuthFlow_def Let_def split: if_splits)

text \<open>
  Claim C9: submitting the empty string in the email form sets the carried email to the
  empty string and the flow state to \<open>choose_method\<close>; rendering that state returns \<open>null\<close>
  and sets the flow state to \<open>email_input\<close>, so that the email form is what is shown.
  And whatever the state \<open>s\<close>, none of the four forms behind the email form is shown
  with a missing or empty \<open>email\<close> prop.
\<close>

theorem empty_email_resets:
  assumes "currentAuthFlowState s0 = email_input"
  shows "tempEmail (dispatch (onEmailSubmitted []) s0) = Some [] \<and>
         currentAuthFlowState (dispatch (onEmailSubmitted []) s0) = choose_method \<and>
         renderAuthFlow (dispatch (onEmailSubmitted []) s0)
           = ((dispatch (onEmailSubmitted []) s0)\<lparr>currentAuthFlowState := email_input\<rparr>, None) \<and>
         currentAuthFlowState (fst (commit (dispatch (onEmailSubmitted []) s0))) = email_input \<and>
         map component_of (snd (commit (dispatch (onEmailSubmitted []) s0)))
           = [Sidebar, EmailInputCard] \<and>
         (\<forall>el \<in> set (snd (commit s)).
            component_of el \<in> {AuthMethodChooserCard, PasswordLoginCard, OtpRequestCard,
                                 OtpVerificationCard}
            \<longrightarrow> truthy (email_prop el))"
proof -
  from assms have "dispatch (onEmailSubmitted []) s0 = handleEmailSubmitted [] s0"
    by (simp add: dispatch_def invoke_def render_defs)
  then have "dispatch (onEmailSubmitted []) s0
               = s0\<lparr>tempEmail := Some [], currentAuthFlowState := choose_method, appError := None\<rparr>"
    by (simp add: handleEmailSubmitted_def)
  then have first: "tempEmail (dispatch (onEmailSubmitted []) s0) = Some [] \<and>
         currentAuthFlowState (dispatch (onEmailSubmitted []) s0) = choose_method \<and>
         renderAuthFlow (dispatch (onEmailSubmitted []) s0)
           = ((dispatch (onEmailSubmitted []) s0)\<lparr>currentAuthFlowState := email_input\<rparr>, None) \<and>
         currentAuthFlowState (fst (commit (dispatch (onEmailSubmitted []) s0))) = email_input \<and>
         map component_of (snd (commit (dispatch (onEmailSubmitted []) s0)))
           = [Sidebar, EmailInputCard]"
    by (simp add: render_defs setCurrentAuthFlowState_def)
  have "truthy (email_prop el)"
    if "el \<in> set (snd (commit s))"
      and "component_of el \<in> {AuthMethodChooserCard, PasswordLoginCard, OtpRequestCard,
                                 OtpVerificationCard}" for el
  proof (cases "guard_fails s")
    case True
    with that(1) have "el \<in> set (snd (App_render (s\<lparr>currentAuthFlowState := email_input\<rparr>)))"
      by (simp add: commit_eq)
    then show ?thesis using that(2) by (rule rendered_email_truthy)
  next
    case False
    with that(1) have "el \<in> set (snd (App_render s))"
      by (simp add: commit_eq)
    then show ?thesis using that(2) by (rule rendered_email_truthy)
  qed
  with first show ?thesis by blast
qed

theorem empty_email_resets_witness:
  "currentAuthFlowState (App_mount Map.empty) = email_input \<and>
   tempEmail (dispatch (onEmailSubmitted []) (App_mount Map.empty)) = Some [] \<and>
   currentAuthFlowState (dispatch (onEmailSubmitted []) (App_mount Map.empty)) = choose_method \<and>
   currentAuthFlowState (fst (commit (dispatch (onEmailSubmitted []) (App_mount Map.empty))))
     = email_input \<and>
   map component_of (snd (commit password_step)) = [Sidebar, PasswordLoginCard] \<and>
   map email_prop (snd (commit password_step)) = [None, Some ''a@b.com''] \<and>
   component_of (last (snd (commit password_step))) = PasswordLoginCard \<and>
   truthy (email_prop (last (snd (commit password_step))))"
proof -
  have a: "currentAuthFlowState (App_mount Map.empty) = email_input"
    by (simp add: App_mount_def App_useEffect_def initial_state_def)
  have b: "map component_of (snd (commit password_step)) = [Sidebar, PasswordLoginCard]"
    by (simp add: password_step_eq render_defs)
  have c: "map email_prop (snd (commit password_step)) = [None, Some ''a@b.com'']"
    by (simp add: password_step_eq render_defs)
  have d: "last (snd (commit password_step)) \<in> set (snd (commit password_step))"
    by (rule last_in_set) (simp add: password_step_eq render_defs)
  have e: "component_of (last (snd (commit password_step))) = PasswordLoginCard"
    by (simp add: password_step_eq render_defs)
  from a b c d e empty_email_resets [OF a, of password_step] show ?thesis by simp
qed

subsection \<open>The carried email\<close>

lemma trace_head: "\<exists>r. trace s calls = s # r"
  by (cases calls) simp_all

lemma commit_state:
  "fst (commit s) = s \<or> fst (commit s) = s\<lparr>currentAuthFlowState := email_input\<rparr>"
  using App_render_guard_fails [of s] App_render_guard_holds [of s]
    App_render_email_input [of "s\<lparr>currentAuthFlowState := email_input\<rparr>"]
  by (auto simp: commit_eq)

lemma commit_tempEmail: "tempEmail (fst (commit s)) = tempEmail s"
  using commit_state [of s] by auto

lemma commit_shown:
  assumes "currentAuthFlowState (fst (commit s)) \<noteq> email_input"
  shows "commit s = App_render s" and "fst (commit s) = s"
proof -
  from assms commit_state [of s] show "fst (commit s) = s" by auto
  have "\<not> guard_fails s"
  proof
    assume g: "guard_fails s"
    then have "commit s = App_render (s\<lparr>currentAuthFlowState := email_input\<rparr>)"
      by (simp add: commit_eq)
    with App_render_email_input [of "s\<lparr>currentAuthFlowState := email_input\<rparr>"] assms
    show False by simp
  qed
  then show "commit s = App_render s" by (simp add: commit_eq)
qed

lemma dispatch_threads_email:
  assumes "tempEmail s = Some e"
    and "currentAuthFlowState (fst (commit s)) \<noteq> email_input"
  shows "tempEmail (dispatch call s) = Some e \<or>
         currentAuthFlowState (dispatch call s) = email_input"
proof -
  from assms(2) have c: "commit s = App_render s" and f: "currentAuthFlowState s \<noteq> email_input"
    using commit_shown [of s] by auto
  then have d: "dispatch call s = invoke (snd (App_render s)) call (fst (App_render s))"
    by (simp add: dispatch_eq)
  show ?thesis
    unfolding d using assms(1) f
    by (cases "currentAuthFlowState s"; cases call)
       (simp_all add: invoke_def App_render_def renderAuthFlow_def Let_def handler_defs)
qed

lemma trace_threads_email:
  "tempEmail s = Some e \<Longrightarrow>
   \<forall>t \<in> set (takeWhile (\<lambda>t. currentAuthFlowState t \<noteq> email_input) (trace s calls)).
     tempEmail t = Some e"
proof (induction calls arbitrary: s)
  case Nil
  then show ?case by (auto simp: commit_tempEmail)
next
  case (Cons call calls)
  let ?P = "\<lambda>t. currentAuthFlowState t \<noteq> email_input"
  let ?s' = "dispatch call s"
  show ?case
  proof (cases "?P s \<and> ?P (fst (commit s))")
    case False
    with Cons.prems show ?thesis by auto
  next
    case True
    then have shown: "currentAuthFlowState (fst (commit s)) \<noteq> email_input" by simp
    from dispatch_threads_email [OF Cons.prems shown, of call]
    have rest: "\<forall>t \<in> set (takeWhile ?P (trace ?s' calls)). tempEmail t = Some e"
    proof
      assume "tempEmail ?s' = Some e"
      then show ?thesis by (rule Cons.IH)
    next
      assume "currentAuthFlowState ?s' = email_input"
      moreover obtain r where "trace ?s' calls = ?s' # r"
        using trace_head by blast
      ultimately have "takeWhile ?P (trace ?s' calls) = []" by simp
      then show ?thesis by simp
    qed
    with True Cons.prems show ?thesis by (simp add: commit_tempEmail)
  qed
qed

text \<open>
  Claim C6: let the email \<open>e\<close> be submitted in the state \<open>email_input\<close>, with any list of
  events after it. The flow state is then \<open>choose_method\<close>, and in every state the
  application passes through before its flow state is \<open>email_input\<close> again, the carried
  email is \<open>e\<close>, in \<open>authenticated\<close> too.
\<close>

theorem email_threading:
  assumes "currentAuthFlowState s0 = email_input"
  shows "currentAuthFlowState (dispatch (onEmailSubmitted e) s0) = choose_method \<and>
         (\<forall>t \<in> set (takeWhile (\<lambda>t. currentAuthFlowState t \<noteq> email_input)
                        (trace (dispatch (onEmailSubmitted e) s0) calls)).
            tempEmail t = Some e)"
proof -
  from assms have "dispatch (onEmailSubmitted e) s0 = handleEmailSubmitted e s0"
    by (simp add: dispatch_def invoke_def render_defs)
  then have "tempEmail (dispatch (onEmailSubmitted e) s0) = Some e"
    and "currentAuthFlowState (dispatch (onEmailSubmitted e) s0) = choose_method"
    by (simp_all add: handleEmailSubmitted_def)
  then show ?thesis using trace_threads_email by blast
qed

theorem email_threading_witness:
  "currentAuthFlowState (App_mount Map.empty) = email_input \<and>
   map currentAuthFlowState
     (takeWhile (\<lambda>t. currentAuthFlowState t \<noteq> email_input)
        (trace (dispatch (onEmailSubmitted ''a@b.com'') (App_mount Map.empty))
           [onChooseOtp, onRequestSuccess, onBack, onBack, onChoosePassword,
            onLoginError ''bad password'', onBack, onBack, onEmailSubmitted ''c@d.com'']))
     = [choose_method, choose_method, request_otp, request_otp, verify_otp, verify_otp,
        request_otp, request_otp, choose_method, choose_method,
        login_with_password, login_with_password, login_with_password, login_with_password,
        choose_method, choose_method] \<and>
   list_all (\<lambda>t. tempEmail t = Some ''a@b.com'')
     (takeWhile (\<lambda>t. currentAuthFlowState t \<noteq> email_input)
        (trace (dispatch (onEmailSubmitted ''a@b.com'') (App_mount Map.empty))
           [onChooseOtp, onRequestSuccess, onBack, onBack, onChoosePassword,
            onLoginError ''bad password'', onBack, onBack, onEmailSubmitted ''c@d.com'']))"
proof -
  have a: "currentAuthFlowState (App_mount Map.empty) = email_input"
    by (simp add: App_mount_def App_useEffect_def initial_state_def)
  have b: "map currentAuthFlowState
     (takeWhile (\<lambda>t. currentAuthFlowState t \<noteq> email_input)
        (trace (dispatch (onEmailSubmitted ''a@b.com'') (App_mount Map.empty))
           [onChooseOtp, onRequestSuccess, onBack, onBack, onChoosePassword,
            onLoginError ''bad password'', onBack, onBack, onEmailSubmitted ''c@d.com'']))
     = [choose_method, choose_method, request_otp, request_otp, verify_otp, verify_otp,
        request_otp, request_otp, choose_method, choose_method,
        login_with_password, login_with_password, login_with_password, login_with_password,
        choose_method, choose_method]"
    by (simp add: run_defs)
  from a b email_threading [OF a, of "''a@b.com''"
      "[onChooseOtp, onRequestSuccess, onBack, onBack, onChoosePassword,
        onLoginError ''bad password'', onBack, onBack, onEmailSubmitted ''c@d.com'']"]
  show ?thesis by (simp add: list_all_iff)
qed

text \<open>
  With a non-empty carried email, the only events that bring the flow back to
  \<open>email_input\<close> are \<open>onLogout\<close> and \<open>onBack\<close> in the state \<open>choose_method\<close>.
\<close>

lemma window_ends_by_back_or_logout:
  assumes "tempEmail s = Some e" "e \<noteq> []"
    and "currentAuthFlowState s \<noteq> email_input"
    and "currentAuthFlowState (dispatch call s) = email_input"
  shows "call = onLogout \<or> (call = onBack \<and> currentAuthFlowState s = choose_method)"
  using assms
  by (cases "currentAuthFlowState s"; cases call)
     (simp_all add: dispatch_def invoke_def render_defs handler_defs)

end
